theory Spec2Isabelle
  imports Complex_Main "HOL-Library.Log_Nat"
begin

section \<open>Data model of \<open>src/index.tsx\<close>\<close>

text \<open>
  The component \<open>MediaDownloader\<close> keeps its state in React hooks. The model threads one
  record through every handler; a handler of the source is a function from the state
  before the call to the state after it. What the environment decides (the provider's
  reply, \<open>Math.random()\<close>, \<open>Date.now()\<close>, whether \<open>localStorage.setItem\<close> throws) is an
  argument of the handler.

  Strings are lists of code units below 256. The download progress is a JavaScript
  \<open>number\<close>, that is a binary64 floating-point number: the model holds the real number
  it denotes and rounds every product and sum the way IEEE 754 does. A timestamp is an
  \<open>int\<close>.
\<close>

text \<open>\<open>interface VideoMetadata\<close> (lines 22-29).\<close>

record VideoMetadata =
  title :: string
  thumbnail :: string
  duration :: string
  author :: string
  videoQualities :: "string list"
  audioFormats :: "string list"

text \<open>
  \<open>interface HistoryItem\<close> (lines 31-36). The fields \<open>id\<close>, \<open>url\<close> and \<open>title\<close> are
  prefixed with \<open>item_\<close>, since \<open>id\<close> is a HOL constant and \<open>url\<close>, \<open>title\<close> are fields of
  the other records.
\<close>

record HistoryItem =
  item_id :: string
  item_url :: string
  item_title :: string
  timestamp :: int

text \<open>
  What \<open>localStorage.getItem('downloader_history')\<close> finds at startup: no item
  (\<open>null\<close>), a text on which \<open>JSON.parse\<close> throws, or the serialisation of a list of
  entries (what \<open>JSON.stringify\<close> wrote at line 66).
\<close>

datatype persisted = NoItem | Malformed string | Entries "HistoryItem list"

datatype js_error = SyntaxError | TypeError | ProviderError | QuotaExceededError

text \<open>
  The hooks of lines 39-47, then what lives outside React: the persisted item, the
  number of running \<open>setInterval\<close> timers, the number of pending \<open>setTimeout\<close> callbacks
  of line 127, and the number of \<open>alert\<close> calls made so far. \<open>selectedFormat\<close> is
  \<open>None\<close> where the JavaScript value is \<open>undefined\<close>.
\<close>

record app =
  url :: string
  loading :: bool
  metadata :: "VideoMetadata option"
  selectedFormat :: "string option"
  downloading :: bool
  progress :: real
  history :: "HistoryItem list"
  showHistory :: bool
  error :: "string option"
  storage :: persisted
  intervals :: nat
  timeouts :: nat
  alerts :: nat

definition initial :: "persisted \<Rightarrow> app" where
  "initial st = \<lparr>url = [], loading = False, metadata = None, selectedFormat = Some [],
     downloading = False, progress = 0, history = [], showHistory = False, error = None,
     storage = st, intervals = 0, timeouts = 0, alerts = 0\<rparr>"

section \<open>History store\<close>

text \<open>
  The effect of lines 50-55, run once after the first render. A missing item and the
  empty text are falsy and leave the history empty; \<open>JSON.parse\<close> is not inside a
  \<open>try\<close>, so its \<open>SyntaxError\<close> leaves the effect uncaught.
\<close>

definition load_history :: "app \<Rightarrow> js_error + app" where
  "load_history s =
     (case storage s of
        NoItem \<Rightarrow> Inr s
      | Malformed t \<Rightarrow> (if t = [] then Inr s else Inl SyntaxError)
      | Entries es \<Rightarrow> Inr (s\<lparr>history := es\<rparr>))"

definition mount :: "persisted \<Rightarrow> js_error + app" where
  "mount st = load_history (initial st)"

text \<open>Line 64: \<open>[newItem, ...history.filter(h => h.url !== videoUrl)].slice(0, 20)\<close>.\<close>

definition updatedHistory :: "HistoryItem \<Rightarrow> HistoryItem list \<Rightarrow> HistoryItem list" where
  "updatedHistory newItem hs =
     take 20 (newItem # filter (\<lambda>h. item_url h \<noteq> item_url newItem) hs)"

text \<open>
  \<open>saveToHistory\<close> (lines 57-67). \<open>rid\<close> is the text drawn from \<open>Math.random()\<close>, \<open>now\<close>
  is \<open>Date.now()\<close>, and \<open>quota_ok\<close> tells whether \<open>localStorage.setItem\<close> returns; when
  it throws, \<open>setHistory\<close> has already run. The result pairs the exception that leaves
  the function, if any, with the state.
\<close>

definition saveToHistory ::
  "string \<Rightarrow> int \<Rightarrow> bool \<Rightarrow> string \<Rightarrow> string \<Rightarrow> app \<Rightarrow> js_error option \<times> app" where
  "saveToHistory rid now quota_ok ttl videoUrl s =
     (let newItem = \<lparr>item_id = rid, item_url = videoUrl, item_title = ttl, timestamp = now\<rparr>;
          updated = updatedHistory newItem (history s);
          s1 = s\<lparr>history := updated\<rparr>
      in if quota_ok then (None, s1\<lparr>storage := Entries updated\<rparr>)
         else (Some QuotaExceededError, s1))"

text \<open>\<open>clearHistory\<close> (lines 69-72).\<close>

definition clearHistory :: "app \<Rightarrow> app" where
  "clearHistory s = s\<lparr>history := [], storage := NoItem\<rparr>"

text \<open>
  A sequence of \<open>record(url, title)\<close> calls: each call is one \<open>saveToHistory\<close> with its
  own identifier, clock reading and persistence outcome.
\<close>

record call =
  call_id :: string
  call_now :: int
  call_quota_ok :: bool
  call_title :: string
  call_url :: string

definition record_call :: "call \<Rightarrow> app \<Rightarrow> app" where
  "record_call c s =
     snd (saveToHistory (call_id c) (call_now c) (call_quota_ok c) (call_title c) (call_url c) s)"

definition record_calls :: "call list \<Rightarrow> app \<Rightarrow> app" where
  "record_calls cs s = fold record_call cs s"

text \<open>
  The order the specification asks for, written from its words: every write moves its
  url to the front, nothing is ever dropped. The store is compared with the first 20 of
  this list.
\<close>

definition spec_write_order :: "string list \<Rightarrow> string list \<Rightarrow> string list" where
  "spec_write_order us old = fold (\<lambda>u acc. u # removeAll u acc) us old"

text \<open>
  The invariant of the store: no two entries with the same url, at most 20 entries.
\<close>

definition history_inv :: "HistoryItem list \<Rightarrow> bool" where
  "history_inv hs = (distinct (map item_url hs) \<and> length hs \<le> 20)"

section \<open>Metadata resolver\<close>

text \<open>
  \<open>url.trim()\<close> removes white space at both ends; among the code units below 256 these
  are tab, line feed, vertical tab, form feed, carriage return, space and the no-break
  space. \<open>!url.trim()\<close> holds when nothing is left.
\<close>

definition js_whitespace :: "char \<Rightarrow> bool" where
  "js_whitespace c = ((of_char c :: nat) \<in> {9, 10, 11, 12, 13, 32, 160})"

definition trim :: "string \<Rightarrow> string" where
  "trim t = rev (dropWhile js_whitespace (rev (dropWhile js_whitespace t)))"

definition is_blank :: "string \<Rightarrow> bool" where
  "is_blank t = (trim t = [])"

text \<open>
  The parsed reply \<open>data\<close> of line 95, with the six properties the code reads. A
  property is \<open>None\<close> when it is absent or \<open>null\<close>; a present property has the type the
  prompt of lines 86-88 and \<open>VideoMetadata\<close> give it.
\<close>

record provider_data =
  data_title :: "string option"
  data_author :: "string option"
  data_duration :: "string option"
  thumbnail_url :: "string option"
  video_qualities :: "string list option"
  audio_formats :: "string list option"

definition empty_data :: provider_data where
  "empty_data = \<lparr>data_title = None, data_author = None, data_duration = None,
     thumbnail_url = None, video_qualities = None, audio_formats = None\<rparr>"

text \<open>
  What lines 84-95 can meet: the call rejects; the response has no text (line 95 then
  parses \<open>'{}'\<close>); \<open>JSON.parse\<close> throws; the text is \<open>null\<close>, so that \<open>data.title\<close> throws a
  \<open>TypeError\<close>; or the text parses to a value with the properties of \<open>provider_data\<close>.
\<close>

datatype provider_reply = Rejected | NoText | BadJson | JsonNull | Parsed provider_data

definition parse_reply :: "provider_reply \<Rightarrow> js_error + provider_data" where
  "parse_reply r =
     (case r of
        Rejected \<Rightarrow> Inl ProviderError
      | NoText \<Rightarrow> Inr empty_data
      | BadJson \<Rightarrow> Inl SyntaxError
      | JsonNull \<Rightarrow> Inl TypeError
      | Parsed d \<Rightarrow> Inr d)"

text \<open>
  \<open>x || d\<close> of JavaScript. A string is falsy when it is missing or empty; an array is
  truthy whenever it is present, also when it is empty.
\<close>

definition or_string :: "string option \<Rightarrow> string \<Rightarrow> string" where
  "or_string x d = (case x of None \<Rightarrow> d | Some t \<Rightarrow> if t = [] then d else t)"

definition or_array :: "string list option \<Rightarrow> string list \<Rightarrow> string list" where
  "or_array x d = (case x of None \<Rightarrow> d | Some xs \<Rightarrow> xs)"

definition truthy :: "string option \<Rightarrow> bool" where
  "truthy x = (case x of None \<Rightarrow> False | Some t \<Rightarrow> t \<noteq> [])"

definition js_or :: "string option \<Rightarrow> string option \<Rightarrow> string option" where
  "js_or a b = (if truthy a then a else b)"

text \<open>\<open>xs[i]\<close> of JavaScript: \<open>undefined\<close> out of range.\<close>

definition js_index :: "string list \<Rightarrow> nat \<Rightarrow> string option" where
  "js_index xs i = (if i < length xs then Some (xs ! i) else None)"

definition default_videoQualities :: "string list" where
  "default_videoQualities = [''360p (SD)'', ''720p (HD)'', ''1080p (Full HD)'']"

definition default_audioFormats :: "string list" where
  "default_audioFormats = [''MP3 128kbps'', ''MP3 320kbps'', ''AAC (Original)'']"

definition default_thumbnail :: string where
  "default_thumbnail =
     ''https://images.unsplash.com/photo-1611162617474-5b21e879e113?auto=format&fit=crop&q=80&w=300&h=200''"

text \<open>The object literal \<open>videoInfo\<close> of lines 97-104.\<close>

definition videoInfo :: "provider_data \<Rightarrow> VideoMetadata" where
  "videoInfo d =
     \<lparr>title = or_string (data_title d) ''Unknown Media Content'',
      thumbnail = or_string (thumbnail_url d) default_thumbnail,
      duration = or_string (data_duration d) ''N/A'',
      author = or_string (data_author d) ''Content Creator'',
      videoQualities = or_array (video_qualities d) default_videoQualities,
      audioFormats = or_array (audio_formats d) default_audioFormats\<rparr>"

text \<open>Line 107: \<open>videoInfo.videoQualities[1] || videoInfo.videoQualities[0]\<close>.\<close>

definition default_format :: "VideoMetadata \<Rightarrow> string option" where
  "default_format m = js_or (js_index (videoQualities m) 1) (js_index (videoQualities m) 0)"

definition blank_message :: string where
  "blank_message = ''Please paste a valid media link first.''"

definition fetch_message :: string where
  "fetch_message = ''Could not fetch media info. Please check the URL and try again.''"

text \<open>
  \<open>fetchQualities\<close> (lines 74-115), one call from the click to the \<open>finally\<close> block. The
  closure's \<open>url\<close> and \<open>history\<close> are those of the state the call starts in. Every
  exception of the \<open>try\<close> block reaches the \<open>catch\<close> of line 109, the one of
  \<open>localStorage.setItem\<close> included.
\<close>

definition fetchQualities :: "provider_reply \<Rightarrow> string \<Rightarrow> int \<Rightarrow> bool \<Rightarrow> app \<Rightarrow> app" where
  "fetchQualities reply rid now quota_ok s =
     (if is_blank (url s) then s\<lparr>error := Some blank_message\<rparr>
      else
        let s1 = s\<lparr>loading := True, error := None, metadata := None\<rparr> in
        (case parse_reply reply of
           Inl e \<Rightarrow> s1\<lparr>error := Some fetch_message, loading := False\<rparr>
         | Inr d \<Rightarrow>
             let m = videoInfo d;
                 s2 = s1\<lparr>metadata := Some m, selectedFormat := default_format m\<rparr>
             in (case saveToHistory rid now quota_ok (title m) (url s) s2 of
                   (None, s3) \<Rightarrow> s3\<lparr>loading := False\<rparr>
                 | (Some e, s3) \<Rightarrow> s3\<lparr>error := Some fetch_message, loading := False\<rparr>)))"

text \<open>
  A resolution is successful when the call ran to the end of its \<open>try\<close> block: the
  link is not blank, the reply parses and the history is persisted.
\<close>

definition successful :: "provider_reply \<Rightarrow> bool \<Rightarrow> app \<Rightarrow> bool" where
  "successful reply quota_ok s =
     (\<not> is_blank (url s) \<and> \<not> isl (parse_reply reply) \<and> quota_ok)"

section \<open>Format selector\<close>

text \<open>The state setter of line 42, called at lines 239 and 263.\<close>

definition setSelectedFormat :: "string \<Rightarrow> app \<Rightarrow> app" where
  "setSelectedFormat label s = s\<lparr>selectedFormat := Some label\<rparr>"

text \<open>
  The render of lines 216-275 draws one button for each entry of \<open>videoQualities\<close> and
  of \<open>audioFormats\<close>, inside \<open>metadata && !loading\<close>. Selecting a label is a click on its
  button; a label with no button cannot be clicked.
\<close>

definition format_buttons :: "app \<Rightarrow> string list" where
  "format_buttons s =
     (case metadata s of
        None \<Rightarrow> []
      | Some m \<Rightarrow> if loading s then [] else videoQualities m @ audioFormats m)"

definition click_format :: "string \<Rightarrow> app \<Rightarrow> app" where
  "click_format label s =
     (if label \<in> set (format_buttons s) then setSelectedFormat label s else s)"

section \<open>Binary64 arithmetic\<close>

text \<open>
  Line 134 multiplies and adds JavaScript numbers. IEEE 754 gives the exact result
  rounded to the nearest binary64 number, a tie going to the even significand. A finite
  binary64 number is \<open>m * 2 ^ e\<close> with \<open>\<bar>m\<bar> < 2 ^ 53\<close> and \<open>e \<ge> -1074\<close>. Overflow to
  \<open>Infinity\<close> is not modelled: the numbers of line 134 stay below 116.
\<close>

definition round_half_even :: "real \<Rightarrow> int" where
  "round_half_even y =
     (let f = \<lfloor>y\<rfloor> in
      if y - of_int f < 1/2 then f
      else if 1/2 < y - of_int f then f + 1
      else if even f then f else f + 1)"

text \<open>
  The exponent \<open>b\<close> with \<open>2 ^ b \<le> x < 2 ^ (b + 1)\<close> of a number \<open>x \<ge> 0\<close>, and \<open>-1022\<close> in the
  subnormal range below \<open>2 ^ -1022\<close>. The binary64 numbers of that binade are the
  multiples of \<open>2 ^ (b - 52)\<close>.
\<close>

definition binade :: "real \<Rightarrow> int" where
  "binade x =
     (if x < 2 powi (-1022) then -1022
      else if 1 \<le> x then bitlen \<lfloor>x\<rfloor> - 1
      else - bitlen (\<lceil>1 / x\<rceil> - 1))"

definition round_magnitude :: "real \<Rightarrow> real" where
  "round_magnitude x =
     of_int (round_half_even (x / 2 powi (binade x - 52))) * 2 powi (binade x - 52)"

definition binary64 :: "real \<Rightarrow> real" where
  "binary64 x = (if x < 0 then - round_magnitude (- x) else round_magnitude x)"

text \<open>\<open>a * b\<close> and \<open>a + b\<close> of JavaScript on numbers.\<close>

definition mul64 :: "real \<Rightarrow> real \<Rightarrow> real" where
  "mul64 a b = binary64 (a * b)"

definition add64 :: "real \<Rightarrow> real \<Rightarrow> real" where
  "add64 a b = binary64 (a + b)"

section \<open>Download orchestrator\<close>

text \<open>\<open>startDownload\<close> (lines 117-137) up to the creation of the timer.\<close>

definition startDownload :: "app \<Rightarrow> app" where
  "startDownload s =
     (if \<not> truthy (selectedFormat s) then s
      else s\<lparr>downloading := True, progress := 0, intervals := intervals s + 1\<rparr>)"

text \<open>
  One firing of the timer of line 123, with \<open>r\<close> the value of \<open>Math.random()\<close>: the
  updater of lines 124-135 applied to the current progress. Line 134 is
  \<open>prev + Math.random() * 15\<close>: the product is rounded, then the sum. Without a running
  timer nothing fires.
\<close>

definition tick :: "real \<Rightarrow> app \<Rightarrow> app" where
  "tick r s =
     (if intervals s = 0 then s
      else if progress s \<ge> 100
      then s\<lparr>intervals := intervals s - 1, timeouts := timeouts s + 1, progress := 100\<rparr>
      else s\<lparr>progress := add64 (progress s) (mul64 r 15)\<rparr>)"

text \<open>The callback of lines 127-131, 500 ms after the timer was cleared.\<close>

definition settle :: "app \<Rightarrow> app" where
  "settle s =
     (if timeouts s = 0 then s
      else s\<lparr>timeouts := timeouts s - 1, downloading := False, progress := 0,
             alerts := alerts s + 1\<rparr>)"

definition ticks :: "real list \<Rightarrow> app \<Rightarrow> app" where
  "ticks rs s = fold tick rs s"

text \<open>
  \<open>Math.random()\<close> returns a binary64 number from 0 inclusive to 1 exclusive.
\<close>

definition random_draw :: "real \<Rightarrow> bool" where
  "random_draw r = (binary64 r = r \<and> 0 \<le> r \<and> r < 1)"

text \<open>
  What the draws \<open>rs\<close> add up to from \<open>p\<close> on, each increment and each sum rounded as
  line 134 rounds it, with no test against 100. It depends on the draws only.
\<close>

fun binary64_total :: "real \<Rightarrow> real list \<Rightarrow> real" where
  "binary64_total p [] = p"
| "binary64_total p (r # rs) = binary64_total (add64 p (mul64 r 15)) rs"

text \<open>
  The download button of lines 278-282: drawn inside \<open>metadata && !loading\<close>, disabled
  while \<open>downloading\<close>. The fetch button of lines 190-192: disabled while \<open>loading\<close> or
  while the link is empty.
\<close>

definition click_download :: "app \<Rightarrow> app" where
  "click_download s =
     (if metadata s = None \<or> loading s then s
      else if downloading s then s
      else startDownload s)"

definition click_fetch :: "provider_reply \<Rightarrow> string \<Rightarrow> int \<Rightarrow> bool \<Rightarrow> app \<Rightarrow> app" where
  "click_fetch reply rid now quota_ok s =
     (if loading s \<or> url s = [] then s else fetchQualities reply rid now quota_ok s)"

section \<open>A session used in the examples\<close>

text \<open>
  The scenario of the specification: the link \<open>https://example.com/v1\<close> is resolved and
  the provider returns \<open>{title: "Demo"}\<close> only; then a download is started and its timer
  fires twice, \<open>Math.random()\<close> returning 0.75 each time.
\<close>

definition example_data :: provider_data where
  "example_data = empty_data\<lparr>data_title := Some ''Demo''\<rparr>"

definition example_ready :: app where
  "example_ready =
     fetchQualities (Parsed example_data) ''k3x9a1'' 1700000000000 True
       ((initial NoItem)\<lparr>url := ''https://example.com/v1''\<rparr>)"

definition example_running :: app where
  "example_running = ticks [3/4, 3/4] (startDownload example_ready)"

section \<open>Verified properties\<close>

subsection \<open>Binary64 rounding\<close>

text \<open>Rounding a scaled magnitude to an integer.\<close>

lemma round_half_even_of_int [simp]: "round_half_even (of_int n) = n"
  by (simp add: round_half_even_def)

lemma round_half_even_bounds:
  "of_int \<lfloor>y\<rfloor> \<le> (of_int (round_half_even y) :: real)" "round_half_even y \<le> \<lfloor>y\<rfloor> + 1"
  by (simp_all add: round_half_even_def Let_def)

lemma round_half_even_mono:
  assumes "x \<le> y"
  shows "round_half_even x \<le> round_half_even y"
proof (cases "\<lfloor>x\<rfloor> = \<lfloor>y\<rfloor>")
  case True
  with assms show ?thesis
    by (auto simp: round_half_even_def Let_def)
next
  case False
  with assms have "\<lfloor>x\<rfloor> < \<lfloor>y\<rfloor>"
    using floor_mono [OF assms] by linarith
  then have "round_half_even x \<le> \<lfloor>y\<rfloor>"
    using round_half_even_bounds(2) [of x] by linarith
  also have "\<lfloor>y\<rfloor> \<le> round_half_even y"
    using round_half_even_bounds(1) [of y] by simp
  finally show ?thesis .
qed

lemma round_half_even_le: "y \<le> of_int n \<Longrightarrow> round_half_even y \<le> n"
  using round_half_even_mono [of y "of_int n"] by simp

lemma round_half_even_ge: "of_int n \<le> y \<Longrightarrow> n \<le> round_half_even y"
  using round_half_even_mono [of "of_int n" y] by simp

text \<open>The binade brackets a normal number.\<close>

lemma binade_subnormal: "x < 2 powi (-1022) \<Longrightarrow> binade x = -1022"
  by (simp add: binade_def)

lemma binade_bounds:
  assumes "2 powi (-1022) \<le> x"
  shows "2 powi (binade x) \<le> x \<and> x < 2 powi (binade x + 1)"
proof -
  have "0 < (2::real) powi (-1022)" by simp
  with assms have xpos: "0 < x" by linarith
  show ?thesis
  proof (cases "1 \<le> x")
    case True
    let ?n = "\<lfloor>x\<rfloor>"
    have n: "0 < ?n" using True by simp
    have b: "binade x = bitlen ?n - 1"
      using assms True by (simp add: binade_def)
    have b1: "1 \<le> bitlen ?n" using n by (auto simp: bitlen_alt_def)
    from bitlen_bounds [OF n]
    have lo: "(2::int) ^ nat (bitlen ?n - 1) \<le> ?n" and hi: "?n < 2 ^ nat (bitlen ?n)"
      by simp_all
    have "(2::real) powi (bitlen ?n - 1) = of_int (2 ^ nat (bitlen ?n - 1))"
      using b1 by (simp add: power_int_nonneg_exp)
    also have "\<dots> \<le> of_int ?n" using lo by (simp only: of_int_le_iff)
    also have "\<dots> \<le> x" by simp
    finally have A: "2 powi (binade x) \<le> x" by (simp add: b)
    have "?n + 1 \<le> 2 ^ nat (bitlen ?n)" using hi by simp
    then have "(of_int (?n + 1) :: real) \<le> of_int (2 ^ nat (bitlen ?n))"
      by (simp only: of_int_le_iff)
    moreover have "x < of_int (?n + 1)" by linarith
    ultimately have "x < of_int (2 ^ nat (bitlen ?n))" by linarith
    also have "(of_int (2 ^ nat (bitlen ?n)) :: real) = 2 powi (bitlen ?n)"
      using b1 by (simp add: power_int_nonneg_exp)
    finally have "x < 2 powi (binade x + 1)" by (simp add: b)
    with A show ?thesis by simp
  next
    case False
    let ?c = "\<lceil>1 / x\<rceil>"
    have y: "1 < 1 / x" using False xpos by simp
    then have c: "0 < ?c - 1" by linarith
    have b: "binade x = - bitlen (?c - 1)"
      using assms False by (simp add: binade_def)
    have b1: "1 \<le> bitlen (?c - 1)" using c by (auto simp: bitlen_alt_def)
    from bitlen_bounds [OF c]
    have lo: "(2::int) ^ nat (bitlen (?c - 1) - 1) \<le> ?c - 1"
      and hi: "?c - 1 < 2 ^ nat (bitlen (?c - 1))"
      by simp_all
    have "1 / x \<le> of_int ?c" by simp
    also have "(of_int ?c :: real) \<le> of_int (2 ^ nat (bitlen (?c - 1)))"
      using hi by (simp only: of_int_le_iff)
    also have "\<dots> = 2 powi (bitlen (?c - 1))"
      using b1 by (simp add: power_int_nonneg_exp)
    finally have "1 / x \<le> 2 powi (bitlen (?c - 1))" .
    then have "1 / 2 powi (bitlen (?c - 1)) \<le> x"
      using xpos by (simp add: field_simps)
    then have A: "2 powi (binade x) \<le> x"
      by (simp add: b power_int_minus_divide)
    have "(2::real) powi (bitlen (?c - 1) - 1) = of_int (2 ^ nat (bitlen (?c - 1) - 1))"
      using b1 by (simp add: power_int_nonneg_exp)
    also have "\<dots> \<le> of_int (?c - 1)" using lo by (simp only: of_int_le_iff)
    also have "\<dots> < 1 / x" by linarith
    finally have "2 powi (bitlen (?c - 1) - 1) < 1 / x" .
    then have "x < 1 / 2 powi (bitlen (?c - 1) - 1)"
      using xpos by (simp add: field_simps)
    also have "\<dots> = 2 powi (- (bitlen (?c - 1) - 1))"
      by (simp only: power_int_minus_divide)
    finally have "x < 2 powi (binade x + 1)"
      by (simp add: b)
    with A show ?thesis by simp
  qed
qed


lemma pow2_less_cancel:
  assumes "(2::real) powi a < 2 powi b"
  shows "a < b"
proof (rule ccontr)
  assume "\<not> a < b"
  then have "b \<le> a" by simp
  then have "(2::real) powi b \<le> 2 powi a" by (rule power_int_increasing) simp
  with assms show False by simp
qed

lemma binade_ge: "- 1022 \<le> binade x"
proof (cases "x < 2 powi (-1022)")
  case True
  then show ?thesis by (simp add: binade_def)
next
  case False
  then have "2 powi (-1022) \<le> x" by simp
  from binade_bounds [OF this] have "(2::real) powi (-1022) < 2 powi (binade x + 1)"
    using False by linarith
  then have "- 1022 < binade x + 1"
    by (rule pow2_less_cancel)
  then show ?thesis by simp
qed

lemma binade_mono:
  assumes "x \<le> y"
  shows "binade x \<le> binade y"
proof (cases "x < 2 powi (-1022)")
  case True
  then show ?thesis using binade_ge [of y] by (simp add: binade_def)
next
  case False
  then have nx: "2 powi (-1022) \<le> x" by simp
  with assms have ny: "2 powi (-1022) \<le> y" by linarith
  have "2 powi (binade x) \<le> x" using binade_bounds [OF nx] by simp
  also have "x \<le> y" by fact
  also have "y < 2 powi (binade y + 1)" using binade_bounds [OF ny] by simp
  finally have "binade x < binade y + 1" by (rule pow2_less_cancel)
  then show ?thesis by simp
qed

text \<open>The scaled magnitude lies below \<open>2 ^ 53\<close>, and at or above \<open>2 ^ 52\<close> for a normal number.\<close>

lemma ulp_pos: "0 < (2::real) powi (binade x - 52)"
  by simp

lemma scaled_less:
  assumes "0 \<le> x"
  shows "x / 2 powi (binade x - 52) < 2 ^ 53"
proof -
  have "x < 2 powi (binade x + 1)"
  proof (cases "x < 2 powi (-1022)")
    case True
    then have "x < 2 powi (-1022)" .
    also have "(2::real) powi (-1022) \<le> 2 powi (binade x + 1)"
      using binade_ge [of x] by (intro power_int_increasing) simp_all
    finally show ?thesis .
  next
    case False
    then show ?thesis using binade_bounds [of x] by simp
  qed
  also have "(2::real) powi (binade x + 1) = 2 ^ 53 * 2 powi (binade x - 52)"
    by (simp add: power_int_diff power_int_add)
  finally show ?thesis
    by (simp add: pos_divide_less_eq)
qed

lemma scaled_ge:
  assumes "2 powi (-1022) \<le> x"
  shows "2 ^ 52 \<le> x / 2 powi (binade x - 52)"
proof -
  have "(2::real) ^ 52 * 2 powi (binade x - 52) = 2 powi (binade x)"
    by (simp add: power_int_diff)
  also have "\<dots> \<le> x" using binade_bounds [OF assms] by simp
  finally show ?thesis
    by (simp add: pos_le_divide_eq)
qed

lemma round_magnitude_le:
  assumes "0 \<le> x"
  shows "round_magnitude x \<le> 2 powi (binade x + 1)"
proof -
  have "x / 2 powi (binade x - 52) \<le> of_int (2 ^ 53)"
    using scaled_less [OF assms] by simp
  then have "round_half_even (x / 2 powi (binade x - 52)) \<le> 2 ^ 53"
    by (rule round_half_even_le)
  then have "(of_int (round_half_even (x / 2 powi (binade x - 52))) :: real) \<le> of_int (2 ^ 53)"
    by (simp only: of_int_le_iff)
  then have "round_magnitude x \<le> 2 ^ 53 * 2 powi (binade x - 52)"
    unfolding round_magnitude_def by (intro mult_right_mono) simp_all
  also have "(2::real) ^ 53 * 2 powi (binade x - 52) = 2 powi (binade x + 1)"
    by (simp add: power_int_diff power_int_add)
  finally show ?thesis .
qed

lemma round_magnitude_ge:
  assumes "2 powi (-1022) \<le> x"
  shows "2 powi (binade x) \<le> round_magnitude x"
proof -
  have "of_int (2 ^ 52) \<le> x / 2 powi (binade x - 52)"
    using scaled_ge [OF assms] by simp
  then have "2 ^ 52 \<le> round_half_even (x / 2 powi (binade x - 52))"
    by (rule round_half_even_ge)
  then have "(of_int (2 ^ 52) :: real) \<le> of_int (round_half_even (x / 2 powi (binade x - 52)))"
    by (simp only: of_int_le_iff)
  then have "2 ^ 52 * 2 powi (binade x - 52) \<le> round_magnitude x"
    unfolding round_magnitude_def by (intro mult_right_mono) simp_all
  moreover have "(2::real) ^ 52 * 2 powi (binade x - 52) = 2 powi (binade x)"
    by (simp add: power_int_diff)
  ultimately show ?thesis by simp
qed

lemma round_magnitude_mono:
  assumes "0 \<le> x" and "x \<le> y"
  shows "round_magnitude x \<le> round_magnitude y"
proof (cases "binade x = binade y")
  case True
  have "x / 2 powi (binade y - 52) \<le> y / 2 powi (binade y - 52)"
    using assms(2) by (simp add: divide_right_mono)
  then have "round_half_even (x / 2 powi (binade y - 52)) \<le>
      round_half_even (y / 2 powi (binade y - 52))"
    by (rule round_half_even_mono)
  then have "(of_int (round_half_even (x / 2 powi (binade y - 52))) :: real) \<le>
      of_int (round_half_even (y / 2 powi (binade y - 52)))"
    by (simp only: of_int_le_iff)
  then show ?thesis
    unfolding round_magnitude_def True by (intro mult_right_mono) simp_all
next
  case False
  with binade_mono [OF assms(2)] have lt: "binade x < binade y" by simp
  have ny: "2 powi (-1022) \<le> y"
  proof (rule ccontr)
    assume "\<not> 2 powi (-1022) \<le> y"
    then have "binade y = -1022" by (simp add: binade_def)
    with lt binade_ge [of x] show False by simp
  qed
  have "round_magnitude x \<le> 2 powi (binade x + 1)"
    using assms(1) by (rule round_magnitude_le)
  also have "(2::real) powi (binade x + 1) \<le> 2 powi (binade y)"
    using lt by (intro power_int_increasing) simp_all
  also have "\<dots> \<le> round_magnitude y"
    using ny by (rule round_magnitude_ge)
  finally show ?thesis .
qed

lemma round_magnitude_0: "round_magnitude 0 = 0"
  using round_half_even_of_int [of 0] by (simp add: round_magnitude_def)

lemma round_magnitude_nonneg: "0 \<le> x \<Longrightarrow> 0 \<le> round_magnitude x"
  using round_magnitude_mono [of 0 x] by (simp add: round_magnitude_0)

lemma binary64_mono:
  assumes "0 \<le> x" and "x \<le> y"
  shows "binary64 x \<le> binary64 y"
  using assms round_magnitude_mono [OF assms] by (simp add: binary64_def)

lemma binary64_nonneg: "0 \<le> x \<Longrightarrow> 0 \<le> binary64 x"
  by (simp add: binary64_def round_magnitude_nonneg)

text \<open>Every \<open>m * 2 ^ e\<close> with \<open>m < 2 ^ 53\<close> and \<open>e \<ge> -1074\<close> is a binary64 number.\<close>

lemma round_magnitude_dyadic:
  assumes "0 \<le> m" and "m < 2 ^ 53" and "- 1074 \<le> e"
  shows "round_magnitude (of_int m * 2 powi e) = of_int m * 2 powi e"
proof -
  let ?x = "of_int m * (2::real) powi e"
  have x0: "0 \<le> ?x" using assms(1) by simp
  have d: "0 \<le> e - (binade ?x - 52)"
  proof (cases "?x < 2 powi (-1022)")
    case True
    then show ?thesis using assms(3) by (simp add: binade_def)
  next
    case False
    then have "2 powi (-1022) \<le> ?x" by simp
    from binade_bounds [OF this] have "2 powi (binade ?x) \<le> ?x" by simp
    also have "?x < 2 ^ 53 * 2 powi e"
    proof -
      have "(of_int m :: real) < of_int (2 ^ 53)"
        using assms(2) by (simp only: of_int_less_iff)
      then show ?thesis by (intro mult_strict_right_mono) simp_all
    qed
    also have "(2::real) ^ 53 * 2 powi e = 2 powi (e + 53)"
      by (simp add: power_int_add)
    finally have "binade ?x < e + 53" by (rule pow2_less_cancel)
    then show ?thesis by simp
  qed
  have "?x / 2 powi (binade ?x - 52) = of_int m * 2 powi (e - (binade ?x - 52))"
    by (simp add: power_int_diff)
  also have "\<dots> = of_int (m * 2 ^ nat (e - (binade ?x - 52)))"
    using d by (simp add: power_int_nonneg_exp)
  finally have "round_half_even (?x / 2 powi (binade ?x - 52)) =
      m * 2 ^ nat (e - (binade ?x - 52))"
    by (simp only: round_half_even_of_int)
  then have "round_magnitude ?x =
      of_int (m * 2 ^ nat (e - (binade ?x - 52))) * 2 powi (binade ?x - 52)"
    by (simp only: round_magnitude_def)
  also have "\<dots> = of_int m * (2 powi (e - (binade ?x - 52)) * 2 powi (binade ?x - 52))"
    using d by (simp add: power_int_nonneg_exp)
  also have "\<dots> = ?x"
    by (simp flip: power_int_add)
  finally show ?thesis .
qed

lemma binary64_dyadic:
  assumes "0 \<le> m" and "m < 2 ^ 53" and "- 1074 \<le> e"
  shows "binary64 (of_int m * 2 powi e) = of_int m * 2 powi e"
proof -
  have "0 \<le> of_int m * (2::real) powi e" using assms(1) by simp
  then have "\<not> of_int m * (2::real) powi e < 0" by simp
  then show ?thesis
    using round_magnitude_dyadic [OF assms] by (simp only: binary64_def if_False)
qed

lemma binary64_of_int:
  assumes "0 \<le> m" and "m < 2 ^ 53"
  shows "binary64 (of_int m) = of_int m"
  using binary64_dyadic [OF assms, of 0] by simp

text \<open>Rounding twice is rounding once.\<close>

lemma binary64_idem:
  assumes "0 \<le> x"
  shows "binary64 (binary64 x) = binary64 x"
proof -
  let ?k = "round_half_even (x / 2 powi (binade x - 52))"
  have rx: "binary64 x = of_int ?k * 2 powi (binade x - 52)"
    using assms by (simp add: binary64_def round_magnitude_def)
  have "of_int 0 \<le> x / 2 powi (binade x - 52)"
    using assms by simp
  then have k0: "0 \<le> ?k" by (rule round_half_even_ge)
  have "x / 2 powi (binade x - 52) \<le> of_int (2 ^ 53)"
    using scaled_less [OF assms] by simp
  then have k1: "?k \<le> 2 ^ 53" by (rule round_half_even_le)
  have e: "- 1074 \<le> binade x - 52" using binade_ge [of x] by simp
  show ?thesis
  proof (cases "?k < 2 ^ 53")
    case True
    from binary64_dyadic [OF k0 True e] show ?thesis by (simp only: rx)
  next
    case False
    with k1 have "?k = 2 ^ 53" by simp
    then have "binary64 x = of_int 1 * 2 powi (binade x + 1)"
      by (simp add: rx power_int_diff power_int_add)
    moreover have "binary64 (of_int 1 * 2 powi (binade x + 1)) = of_int 1 * 2 powi (binade x + 1)"
      using binade_ge [of x] by (intro binary64_dyadic) simp_all
    ultimately show ?thesis by simp
  qed
qed

text \<open>Within a known binade the rounding is a rounding to multiples of one step.\<close>

lemma binade_unique:
  assumes "2 powi b \<le> x" and "x < 2 powi (b + 1)" and "- 1022 \<le> b"
  shows "binade x = b"
proof -
  have "(2::real) powi (-1022) \<le> 2 powi b"
    using assms(3) by (intro power_int_increasing) simp_all
  with assms(1) have n: "2 powi (-1022) \<le> x" by linarith
  from binade_bounds [OF n] have lo: "2 powi (binade x) \<le> x" and hi: "x < 2 powi (binade x + 1)"
    by simp_all
  from lo assms(2) have "(2::real) powi (binade x) < 2 powi (b + 1)" by linarith
  then have "binade x < b + 1" by (rule pow2_less_cancel)
  moreover from assms(1) hi have "(2::real) powi b < 2 powi (binade x + 1)" by linarith
  then have "b < binade x + 1" by (rule pow2_less_cancel)
  ultimately show ?thesis by simp
qed

lemma binary64_in_binade:
  assumes "2 powi b \<le> x" and "x < 2 powi (b + 1)" and "- 1022 \<le> b"
  shows "binary64 x = of_int (round_half_even (x / 2 powi (b - 52))) * 2 powi (b - 52)"
proof -
  have "0 < (2::real) powi b" by simp
  with assms(1) have "0 < x" by linarith
  then show ?thesis
    by (simp add: binary64_def round_magnitude_def binade_unique [OF assms])
qed

lemma binary64_quarters:
  assumes "0 \<le> m" and "m < 2 ^ 53"
  shows "binary64 (of_int m / 4) = of_int m / 4"
  using binary64_dyadic [OF assms, of "- 2"] by (simp add: power_int_minus_divide)

text \<open>The numbers the examples meet are binary64 numbers.\<close>

lemma binary64_values:
  "binary64 0 = 0" "binary64 (1/2) = 1/2" "binary64 (3/4) = 3/4" "binary64 (15/2) = 15/2"
  "binary64 (45/4) = 45/4" "binary64 15 = 15" "binary64 (45/2) = 45/2" "binary64 30 = 30"
  "binary64 (135/4) = 135/4" "binary64 45 = 45" "binary64 (225/4) = 225/4"
  "binary64 (135/2) = 135/2" "binary64 (315/4) = 315/4" "binary64 90 = 90"
  "binary64 100 = 100" "binary64 (405/4) = 405/4" "binary64 115 = 115"
  using binary64_quarters [of 0] binary64_quarters [of 2] binary64_quarters [of 3]
    binary64_quarters [of 30] binary64_quarters [of 45] binary64_quarters [of 60]
    binary64_quarters [of 90] binary64_quarters [of 120] binary64_quarters [of 135]
    binary64_quarters [of 180] binary64_quarters [of 225] binary64_quarters [of 270]
    binary64_quarters [of 315] binary64_quarters [of 360] binary64_quarters [of 400]
    binary64_quarters [of 405] binary64_quarters [of 460]
  by simp_all

subsection \<open>History store\<close>

lemma map_filter_removeAll:
  "map f (filter (\<lambda>h. f h \<noteq> u) hs) = removeAll u (map f hs)"
  by (induction hs) auto

lemma urls_updatedHistory:
  "map item_url (updatedHistory n hs) =
     take 20 (item_url n # removeAll (item_url n) (map item_url hs))"
  by (simp add: updatedHistory_def map_filter_removeAll flip: take_map)

lemma take_removeAll_take:
  "distinct xs \<Longrightarrow> take k (removeAll u (take (Suc k) xs)) = take k (removeAll u xs)"
proof (induction xs arbitrary: k)
  case Nil
  then show ?case by simp
next
  case (Cons x xs)
  show ?case
  proof (cases "x = u")
    case True
    with Cons.prems have "u \<notin> set xs" by simp
    then have "u \<notin> set (take k xs)" by (auto dest: in_set_takeD)
    with True \<open>u \<notin> set xs\<close> show ?thesis by simp
  next
    case False
    show ?thesis
    proof (cases k)
      case 0
      then show ?thesis by simp
    next
      case (Suc j)
      with False Cons show ?thesis by simp
    qed
  qed
qed

lemma move_front_take:
  "distinct xs \<Longrightarrow> take n (u # removeAll u (take n xs)) = take n (u # removeAll u xs)"
  by (cases n) (simp_all add: take_removeAll_take)

lemma distinct_move_front: "distinct xs \<Longrightarrow> distinct (u # removeAll u xs)"
  by (simp add: distinct_removeAll)

lemma spec_write_order_Cons:
  "spec_write_order (u # us) old = spec_write_order us (u # removeAll u old)"
  by (simp add: spec_write_order_def)

lemma spec_write_order_take:
  "distinct xs \<Longrightarrow> take n (spec_write_order us (take n xs)) = take n (spec_write_order us xs)"
proof (induction us arbitrary: xs)
  case Nil
  then show ?case by (simp add: spec_write_order_def)
next
  case (Cons u us)
  let ?a = "u # removeAll u (take n xs)" and ?b = "u # removeAll u xs"
  have da: "distinct ?a" and db: "distinct ?b"
    using Cons.prems by (simp_all add: distinct_removeAll)
  have "take n (spec_write_order us ?a) = take n (spec_write_order us (take n ?a))"
    using Cons.IH [OF da] by simp
  also have "take n ?a = take n ?b"
    using Cons.prems by (rule move_front_take)
  also have "take n (spec_write_order us (take n ?b)) = take n (spec_write_order us ?b)"
    using Cons.IH [OF db] .
  finally show ?case by (simp only: spec_write_order_Cons)
qed

lemma history_record_call:
  "history (record_call c s) =
     updatedHistory \<lparr>item_id = call_id c, item_url = call_url c, item_title = call_title c,
       timestamp = call_now c\<rparr> (history s)"
  by (simp add: record_call_def saveToHistory_def Let_def)

lemma urls_record_call:
  "map item_url (history (record_call c s)) =
     take 20 (call_url c # removeAll (call_url c) (map item_url (history s)))"
  by (simp only: history_record_call urls_updatedHistory HistoryItem.select_convs)

lemma history_inv_record_call:
  assumes "distinct (map item_url (history s))"
  shows "history_inv (history (record_call c s))"
proof -
  have "distinct (call_url c # removeAll (call_url c) (map item_url (history s)))"
    using assms by (rule distinct_move_front)
  then have "distinct (map item_url (history (record_call c s)))"
    by (simp only: urls_record_call distinct_take)
  moreover have "length (history (record_call c s)) \<le> 20"
    by (simp add: history_record_call updatedHistory_def)
  ultimately show ?thesis by (simp add: history_inv_def)
qed

lemma record_calls_Cons: "record_calls (c # cs) s = record_calls cs (record_call c s)"
  by (simp add: record_calls_def)

text \<open>
  Claim C2. From a history with pairwise distinct urls and at most 20 entries (the empty
  one in particular), after every sequence of \<open>record\<close> calls, and so after each call of
  it, the history again holds no url twice and at most 20 entries, and its urls are the
  first 20 of the most-recent-write-first order: the urls written, latest write first,
  followed by the older entries in the order they had.
\<close>

theorem history_invariant:
  assumes "history_inv (history s)"
  shows "history_inv (history (record_calls cs s)) \<and>
         map item_url (history (record_calls cs s)) =
           take 20 (spec_write_order (map call_url cs) (map item_url (history s)))"
  using assms
proof (induction cs arbitrary: s)
  case Nil
  then show ?case by (simp add: record_calls_def spec_write_order_def history_inv_def)
next
  case (Cons c cs)
  let ?s1 = "record_call c s"
  let ?front = "call_url c # removeAll (call_url c) (map item_url (history s))"
  have d: "distinct (map item_url (history s))"
    using Cons.prems by (simp add: history_inv_def)
  have inv1: "history_inv (history ?s1)"
    using d by (rule history_inv_record_call)
  have df: "distinct ?front" using d by (rule distinct_move_front)
  have "map item_url (history (record_calls cs ?s1)) =
          take 20 (spec_write_order (map call_url cs) (take 20 ?front))"
    using Cons.IH [OF inv1] by (simp only: urls_record_call)
  also have "\<dots> = take 20 (spec_write_order (map call_url cs) ?front)"
    using df by (rule spec_write_order_take)
  finally show ?case
    using Cons.IH [OF inv1] by (simp only: record_calls_Cons list.map spec_write_order_Cons simp_thms)
qed

theorem history_invariant_witness:
  "history_inv (history (initial NoItem)) \<and>
   history_inv (history (record_calls
     [\<lparr>call_id = ''k1'', call_now = 1, call_quota_ok = True, call_title = ''A'', call_url = ''u/a''\<rparr>,
      \<lparr>call_id = ''k2'', call_now = 2, call_quota_ok = True, call_title = ''B'', call_url = ''u/b''\<rparr>,
      \<lparr>call_id = ''k3'', call_now = 3, call_quota_ok = False, call_title = ''A2'', call_url = ''u/a''\<rparr>]
     (initial NoItem))) \<and>
   map item_url (history (record_calls
     [\<lparr>call_id = ''k1'', call_now = 1, call_quota_ok = True, call_title = ''A'', call_url = ''u/a''\<rparr>,
      \<lparr>call_id = ''k2'', call_now = 2, call_quota_ok = True, call_title = ''B'', call_url = ''u/b''\<rparr>,
      \<lparr>call_id = ''k3'', call_now = 3, call_quota_ok = False, call_title = ''A2'', call_url = ''u/a''\<rparr>]
     (initial NoItem))) = [''u/a'', ''u/b'']"
proof -
  have h: "history_inv (history (initial NoItem))"
    by (simp add: history_inv_def initial_def)
  show ?thesis
    using h history_invariant [OF h, of
     "[\<lparr>call_id = ''k1'', call_now = 1, call_quota_ok = True, call_title = ''A'', call_url = ''u/a''\<rparr>,
      \<lparr>call_id = ''k2'', call_now = 2, call_quota_ok = True, call_title = ''B'', call_url = ''u/b''\<rparr>,
      \<lparr>call_id = ''k3'', call_now = 3, call_quota_ok = False, call_title = ''A2'', call_url = ''u/a''\<rparr>]"]
    by (simp add: spec_write_order_def initial_def)
qed


subsection \<open>The example session, evaluated\<close>

lemma is_blank_example: "\<not> is_blank ''https://example.com/v1''"
  by (simp add: is_blank_def trim_def js_whitespace_def)

lemma is_blank_spaces: "is_blank ''   ''"
  by (simp add: is_blank_def trim_def js_whitespace_def)

lemma videoInfo_example:
  "videoInfo example_data =
     \<lparr>title = ''Demo'', thumbnail = default_thumbnail, duration = ''N/A'',
      author = ''Content Creator'', videoQualities = default_videoQualities,
      audioFormats = default_audioFormats\<rparr>"
  by (simp add: videoInfo_def example_data_def empty_data_def or_string_def or_array_def)

lemma example_ready_eq:
  "example_ready =
     \<lparr>url = ''https://example.com/v1'', loading = False,
      metadata = Some (videoInfo example_data),
      selectedFormat = Some ''720p (HD)'', downloading = False, progress = 0,
      history = [\<lparr>item_id = ''k3x9a1'', item_url = ''https://example.com/v1'',
                  item_title = ''Demo'', timestamp = 1700000000000\<rparr>],
      showHistory = False, error = None,
      storage = Entries [\<lparr>item_id = ''k3x9a1'', item_url = ''https://example.com/v1'',
                  item_title = ''Demo'', timestamp = 1700000000000\<rparr>],
      intervals = 0, timeouts = 0, alerts = 0\<rparr>"
  by (simp add: example_ready_def fetchQualities_def is_blank_example initial_def
      parse_reply_def videoInfo_example saveToHistory_def updatedHistory_def Let_def
      default_format_def js_or_def js_index_def truthy_def default_videoQualities_def)

lemma example_running_eq:
  "example_running = example_ready\<lparr>downloading := True, progress := 45/2, intervals := 1\<rparr>"
  by (simp add: example_running_def ticks_def tick_def startDownload_def truthy_def
      example_ready_eq add64_def mul64_def binary64_values)


subsection \<open>Metadata resolver\<close>

lemma fetchQualities_success:
  assumes "successful reply quota_ok s" and "parse_reply reply = Inr d"
  shows "fetchQualities reply rid now quota_ok s =
     s\<lparr>loading := False, error := None, metadata := Some (videoInfo d),
       selectedFormat := default_format (videoInfo d),
       history := updatedHistory \<lparr>item_id = rid, item_url = url s,
          item_title = title (videoInfo d), timestamp = now\<rparr> (history s),
       storage := Entries (updatedHistory \<lparr>item_id = rid, item_url = url s,
          item_title = title (videoInfo d), timestamp = now\<rparr> (history s))\<rparr>"
  using assms by (simp add: successful_def fetchQualities_def saveToHistory_def Let_def)

lemma length_defaults:
  "length default_videoQualities = 3" "length default_audioFormats = 3"
  by (simp_all add: default_videoQualities_def default_audioFormats_def)

text \<open>
  Claim C1 as stated fails: an empty array is truthy, so lines 102-103 keep it. When the
  provider sends \<open>video_qualities: []\<close> and \<open>audio_formats: []\<close> the resolution succeeds
  with both lists empty.
\<close>

theorem c1_counterexample:
  "successful (Parsed (empty_data\<lparr>video_qualities := Some [], audio_formats := Some []\<rparr>)) True
     ((initial NoItem)\<lparr>url := ''https://example.com/v1''\<rparr>) \<and>
   error (fetchQualities
     (Parsed (empty_data\<lparr>video_qualities := Some [], audio_formats := Some []\<rparr>)) ''k3x9a1''
     1700000000000 True ((initial NoItem)\<lparr>url := ''https://example.com/v1''\<rparr>)) = None \<and>
   map_option videoQualities (metadata (fetchQualities
     (Parsed (empty_data\<lparr>video_qualities := Some [], audio_formats := Some []\<rparr>)) ''k3x9a1''
     1700000000000 True ((initial NoItem)\<lparr>url := ''https://example.com/v1''\<rparr>))) = Some [] \<and>
   map_option audioFormats (metadata (fetchQualities
     (Parsed (empty_data\<lparr>video_qualities := Some [], audio_formats := Some []\<rparr>)) ''k3x9a1''
     1700000000000 True ((initial NoItem)\<lparr>url := ''https://example.com/v1''\<rparr>))) = Some []"
  by (simp add: successful_def fetchQualities_def is_blank_example initial_def
      parse_reply_def videoInfo_def empty_data_def or_array_def saveToHistory_def Let_def)

text \<open>
  Claim C1, amended. After every successful resolution the record installed is
  \<open>videoInfo d\<close>; each of its two lists is, independently of the other, the 3-element
  default list when the reply has no such property, and the list the provider sent
  otherwise. So each list is non-empty unless the provider sent the empty array for it.
\<close>

theorem resolution_formats:
  assumes "successful reply quota_ok s" and "parse_reply reply = Inr d"
  shows "metadata (fetchQualities reply rid now quota_ok s) = Some (videoInfo d) \<and>
         videoQualities (videoInfo d) =
           (case video_qualities d of None \<Rightarrow> default_videoQualities | Some q \<Rightarrow> q) \<and>
         audioFormats (videoInfo d) =
           (case audio_formats d of None \<Rightarrow> default_audioFormats | Some a \<Rightarrow> a) \<and>
         length default_videoQualities = 3 \<and> length default_audioFormats = 3 \<and>
         (video_qualities d \<noteq> Some [] \<longrightarrow> videoQualities (videoInfo d) \<noteq> []) \<and>
         (audio_formats d \<noteq> Some [] \<longrightarrow> audioFormats (videoInfo d) \<noteq> [])"
proof -
  have "metadata (fetchQualities reply rid now quota_ok s) = Some (videoInfo d)"
    by (simp add: fetchQualities_success [OF assms])
  moreover have "videoQualities (videoInfo d) =
      (case video_qualities d of None \<Rightarrow> default_videoQualities | Some q \<Rightarrow> q)"
    by (simp add: videoInfo_def or_array_def)
  moreover have "audioFormats (videoInfo d) =
      (case audio_formats d of None \<Rightarrow> default_audioFormats | Some a \<Rightarrow> a)"
    by (simp add: videoInfo_def or_array_def)
  moreover have "video_qualities d \<noteq> Some [] \<longrightarrow> videoQualities (videoInfo d) \<noteq> []"
    by (cases "video_qualities d")
       (auto simp: videoInfo_def or_array_def default_videoQualities_def)
  moreover have "audio_formats d \<noteq> Some [] \<longrightarrow> audioFormats (videoInfo d) \<noteq> []"
    by (cases "audio_formats d")
       (auto simp: videoInfo_def or_array_def default_audioFormats_def)
  ultimately show ?thesis by (simp add: length_defaults)
qed

theorem resolution_formats_witness:
  "successful (Parsed example_data) True ((initial NoItem)\<lparr>url := ''https://example.com/v1''\<rparr>) \<and>
   parse_reply (Parsed example_data) = Inr example_data \<and>
   video_qualities example_data \<noteq> Some [] \<and> audio_formats example_data \<noteq> Some [] \<and>
   metadata example_ready = Some (videoInfo example_data) \<and>
   videoQualities (videoInfo example_data) = [''360p (SD)'', ''720p (HD)'', ''1080p (Full HD)''] \<and>
   audioFormats (videoInfo example_data) = [''MP3 128kbps'', ''MP3 320kbps'', ''AAC (Original)'']"
proof -
  have a: "successful (Parsed example_data) True
      ((initial NoItem)\<lparr>url := ''https://example.com/v1''\<rparr>)"
    by (simp add: successful_def is_blank_example parse_reply_def)
  have b: "parse_reply (Parsed example_data) = Inr example_data"
    by (simp add: parse_reply_def)
  have c: "video_qualities example_data \<noteq> Some [] \<and> audio_formats example_data \<noteq> Some []"
    by (simp add: example_data_def empty_data_def)
  show ?thesis
    using a b c resolution_formats [OF a b, of "''k3x9a1''" 1700000000000]
    by (simp add: example_ready_def example_data_def empty_data_def
        default_videoQualities_def default_audioFormats_def)
qed

text \<open>
  Claim C10 as stated fails: with \<open>video_qualities: []\<close> line 107 yields \<open>undefined\<close>,
  although \<open>audioFormats\<close> has a first entry.
\<close>

theorem c10_counterexample:
  "successful (Parsed (empty_data\<lparr>video_qualities := Some []\<rparr>)) True
     ((initial NoItem)\<lparr>url := ''https://example.com/v1''\<rparr>) \<and>
   selectedFormat (fetchQualities (Parsed (empty_data\<lparr>video_qualities := Some []\<rparr>)) ''k3x9a1''
     1700000000000 True ((initial NoItem)\<lparr>url := ''https://example.com/v1''\<rparr>)) = None \<and>
   map_option audioFormats
     (metadata (fetchQualities (Parsed (empty_data\<lparr>video_qualities := Some []\<rparr>)) ''k3x9a1''
        1700000000000 True ((initial NoItem)\<lparr>url := ''https://example.com/v1''\<rparr>))) =
     Some [''MP3 128kbps'', ''MP3 320kbps'', ''AAC (Original)'']"
  by (simp add: successful_def fetchQualities_def is_blank_example initial_def
      parse_reply_def videoInfo_def empty_data_def or_array_def saveToHistory_def Let_def
      default_format_def js_or_def js_index_def truthy_def default_audioFormats_def)

lemma default_format_cases:
  "default_format m =
     (if 2 \<le> length (videoQualities m) \<and> videoQualities m ! 1 \<noteq> []
      then Some (videoQualities m ! 1)
      else if videoQualities m \<noteq> [] then Some (videoQualities m ! 0)
      else None)"
  by (auto simp: default_format_def js_or_def js_index_def truthy_def)

text \<open>
  Claim C10, amended. A successful resolution resets \<open>selectedFormat\<close> to the second
  entry of \<open>videoQualities\<close> when the list has at least 2 entries and that entry is not
  the empty string, else to the first entry when the list is not empty, else to
  \<open>undefined\<close>; \<open>audioFormats\<close> is not consulted.
\<close>

theorem selection_reset:
  assumes "successful reply quota_ok s" and "parse_reply reply = Inr d"
  shows "metadata (fetchQualities reply rid now quota_ok s) = Some (videoInfo d) \<and>
         selectedFormat (fetchQualities reply rid now quota_ok s) =
           (if 2 \<le> length (videoQualities (videoInfo d)) \<and> videoQualities (videoInfo d) ! 1 \<noteq> []
            then Some (videoQualities (videoInfo d) ! 1)
            else if videoQualities (videoInfo d) \<noteq> [] then Some (videoQualities (videoInfo d) ! 0)
            else None)"
  by (simp add: fetchQualities_success [OF assms] default_format_cases)

theorem selection_reset_witness:
  "successful (Parsed example_data) True ((initial NoItem)\<lparr>url := ''https://example.com/v1''\<rparr>) \<and>
   parse_reply (Parsed example_data) = Inr example_data \<and>
   selectedFormat example_ready = Some ''720p (HD)''"
proof -
  have a: "successful (Parsed example_data) True
      ((initial NoItem)\<lparr>url := ''https://example.com/v1''\<rparr>)"
    by (simp add: successful_def is_blank_example parse_reply_def)
  have b: "parse_reply (Parsed example_data) = Inr example_data"
    by (simp add: parse_reply_def)
  show ?thesis
    using a b selection_reset [OF a b, of "''k3x9a1''" 1700000000000]
    by (simp add: example_ready_def videoInfo_example default_videoQualities_def)
qed


subsection \<open>Download orchestrator\<close>

lemma ticks_Nil: "ticks [] s = s"
  by (simp add: ticks_def)

lemma ticks_Cons: "ticks (r # rs) s = ticks rs (tick r s)"
  by (simp add: ticks_def)

lemma ticks_append: "ticks (rs @ rs') s = ticks rs' (ticks rs s)"
  by (simp add: ticks_def)

lemma increment_bounds:
  assumes "random_draw r"
  shows "0 \<le> mul64 r 15 \<and> mul64 r 15 \<le> 15"
proof -
  from assms have r: "0 \<le> r" "r < 1" by (simp_all add: random_draw_def)
  have "binary64 0 \<le> binary64 (r * 15)"
    using r by (intro binary64_mono) simp_all
  moreover have "binary64 (r * 15) \<le> binary64 15"
    using r by (intro binary64_mono) simp_all
  ultimately show ?thesis by (simp add: mul64_def binary64_values)
qed

lemma tick_below:
  assumes "random_draw r" and "0 < intervals s" and "progress s < 100"
    and "0 \<le> progress s" and "binary64 (progress s) = progress s"
  shows "progress (tick r s) = add64 (progress s) (mul64 r 15) \<and>
         progress s \<le> progress (tick r s) \<and> progress (tick r s) \<le> 115"
proof -
  let ?a = "mul64 r 15"
  from increment_bounds [OF assms(1)] have a: "0 \<le> ?a" "?a \<le> 15" by simp_all
  have eq: "progress (tick r s) = binary64 (progress s + ?a)"
    using assms(2,3) by (simp add: tick_def add64_def)
  have "binary64 (progress s) \<le> binary64 (progress s + ?a)"
    using assms(4) a by (intro binary64_mono) simp_all
  then have lo: "progress s \<le> binary64 (progress s + ?a)"
    by (simp only: assms(5))
  have "binary64 (progress s + ?a) \<le> binary64 115"
    using assms(3,4) a by (intro binary64_mono) simp_all
  then have hi: "binary64 (progress s + ?a) \<le> 115"
    by (simp only: binary64_values)
  from lo hi show ?thesis by (simp add: eq add64_def)
qed

lemma tick_pin:
  assumes "0 < intervals s" and "100 \<le> progress s"
  shows "progress (tick r s) = 100"
  using assms by (simp add: tick_def)

text \<open>
  What every tick keeps: the progress is a binary64 number between 0 and 115.
\<close>

lemma tick_stored:
  assumes "random_draw r" and "binary64 (progress s) = progress s"
    and "0 \<le> progress s" and "progress s \<le> 115"
  shows "binary64 (progress (tick r s)) = progress (tick r s) \<and>
         0 \<le> progress (tick r s) \<and> progress (tick r s) \<le> 115"
proof (cases "intervals s = 0")
  case True
  with assms show ?thesis by (simp add: tick_def)
next
  case False
  then have i: "0 < intervals s" by simp
  show ?thesis
  proof (cases "100 \<le> progress s")
    case True
    from tick_pin [OF i True] show ?thesis by (simp add: binary64_values)
  next
    case False
    then have lt: "progress s < 100" by simp
    from tick_below [OF assms(1) i lt assms(3,2)]
    have eq: "progress (tick r s) = add64 (progress s) (mul64 r 15)"
      and lo: "progress s \<le> progress (tick r s)" and hi: "progress (tick r s) \<le> 115"
      by simp_all
    have "0 \<le> progress s + mul64 r 15"
      using assms(3) increment_bounds [OF assms(1)] by simp
    then have "binary64 (binary64 (progress s + mul64 r 15)) = binary64 (progress s + mul64 r 15)"
      by (rule binary64_idem)
    then have "binary64 (progress (tick r s)) = progress (tick r s)"
      by (simp only: eq add64_def)
    with lo hi assms(3) show ?thesis by simp
  qed
qed

lemma ticks_stored:
  assumes "list_all random_draw rs" and "binary64 (progress s) = progress s"
    and "0 \<le> progress s" and "progress s \<le> 115"
  shows "binary64 (progress (ticks rs s)) = progress (ticks rs s) \<and>
         0 \<le> progress (ticks rs s) \<and> progress (ticks rs s) \<le> 115"
  using assms
proof (induction rs arbitrary: s)
  case Nil
  then show ?case by (simp add: ticks_Nil)
next
  case (Cons r rs)
  from Cons.prems(1) have r: "random_draw r" and rs: "list_all random_draw rs" by simp_all
  from tick_stored [OF r Cons.prems(2,3,4)]
  have "binary64 (progress (tick r s)) = progress (tick r s)"
    and "0 \<le> progress (tick r s)" and "progress (tick r s) \<le> 115"
    by simp_all
  from Cons.IH [OF rs this] show ?case by (simp only: ticks_Cons)
qed

lemma nine_ticks:
  "ticks [3/4, 3/4, 3/4, 3/4, 3/4, 3/4, 3/4, 3/4, 3/4] (startDownload example_ready) =
     example_ready\<lparr>downloading := True, progress := 405/4, intervals := 1\<rparr>"
  by (simp add: ticks_def tick_def startDownload_def truthy_def example_ready_eq
      add64_def mul64_def binary64_values)

text \<open>
  Claim C3 as stated fails. \<open>Math.random()\<close> may return 0, so an increment may be 0.
  Line 134 does not clamp: nine draws of 0.75 take the progress of a running task to
  101.25, and the next tick takes it back to 100. Every number of this run is a binary64
  number, so no rounding takes place.
\<close>

theorem c3_counterexample:
  "random_draw (3/4) \<and> random_draw 0 \<and>
   downloading (ticks [3/4, 3/4, 3/4, 3/4, 3/4, 3/4, 3/4, 3/4, 3/4] (startDownload example_ready)) \<and>
   intervals (ticks [3/4, 3/4, 3/4, 3/4, 3/4, 3/4, 3/4, 3/4, 3/4] (startDownload example_ready)) = 1 \<and>
   progress (ticks [3/4, 3/4, 3/4, 3/4, 3/4, 3/4, 3/4, 3/4, 3/4] (startDownload example_ready)) = 405/4 \<and>
   progress (tick (3/4)
     (ticks [3/4, 3/4, 3/4, 3/4, 3/4, 3/4, 3/4, 3/4, 3/4] (startDownload example_ready))) = 100 \<and>
   progress (tick 0 (startDownload example_ready)) = progress (startDownload example_ready)"
proof -
  have a: "random_draw (3/4)" "random_draw 0"
    by (simp_all add: random_draw_def binary64_values)
  have b: "downloading (ticks [3/4, 3/4, 3/4, 3/4, 3/4, 3/4, 3/4, 3/4, 3/4] (startDownload example_ready))"
    "intervals (ticks [3/4, 3/4, 3/4, 3/4, 3/4, 3/4, 3/4, 3/4, 3/4] (startDownload example_ready)) = 1"
    "progress (ticks [3/4, 3/4, 3/4, 3/4, 3/4, 3/4, 3/4, 3/4, 3/4] (startDownload example_ready)) = 405/4"
    "progress (tick (3/4)
       (ticks [3/4, 3/4, 3/4, 3/4, 3/4, 3/4, 3/4, 3/4, 3/4] (startDownload example_ready))) = 100"
    by (simp_all add: nine_ticks tick_def)
  have c: "progress (tick 0 (startDownload example_ready)) = progress (startDownload example_ready)"
    by (simp add: tick_def startDownload_def truthy_def example_ready_eq
        add64_def mul64_def binary64_values)
  from a b c show ?thesis by blast
qed

text \<open>
  Claim C3, amended. While a download task is running, a tick that finds the progress
  below 100 adds the increment \<open>Math.random() * 15\<close>, a binary64 number of at least 0 and
  at most 15, and stores the binary64 sum without clamping it at 100; a tick that finds
  the progress at 100 or above sets it to exactly 100. So the progress lies in
  \<open>[0, 115]\<close> at every observation and does not decrease while it is below 100.
\<close>

theorem tick_progress:
  assumes "truthy (selectedFormat s)" and "list_all random_draw rs" and "random_draw r"
  shows "0 \<le> progress (ticks rs (startDownload s)) \<and>
         progress (ticks rs (startDownload s)) \<le> 115 \<and>
         0 \<le> mul64 r 15 \<and> mul64 r 15 \<le> 15 \<and>
         (0 < intervals (ticks rs (startDownload s)) \<and> progress (ticks rs (startDownload s)) < 100 \<longrightarrow>
            progress (tick r (ticks rs (startDownload s))) =
              add64 (progress (ticks rs (startDownload s))) (mul64 r 15) \<and>
            progress (ticks rs (startDownload s)) \<le> progress (tick r (ticks rs (startDownload s))) \<and>
            progress (tick r (ticks rs (startDownload s))) \<le> 115) \<and>
         (0 < intervals (ticks rs (startDownload s)) \<and> 100 \<le> progress (ticks rs (startDownload s)) \<longrightarrow>
            progress (tick r (ticks rs (startDownload s))) = 100)"
proof -
  let ?t = "ticks rs (startDownload s)"
  have p0: "progress (startDownload s) = 0"
    using assms(1) by (simp add: startDownload_def)
  have st: "binary64 (progress ?t) = progress ?t \<and> 0 \<le> progress ?t \<and> progress ?t \<le> 115"
    using assms(2) by (rule ticks_stored) (simp_all add: p0 binary64_values)
  have below: "0 < intervals ?t \<and> progress ?t < 100 \<longrightarrow>
      progress (tick r ?t) = add64 (progress ?t) (mul64 r 15) \<and>
      progress ?t \<le> progress (tick r ?t) \<and> progress (tick r ?t) \<le> 115"
    using tick_below [OF assms(3), of ?t] st by blast
  have pin: "0 < intervals ?t \<and> 100 \<le> progress ?t \<longrightarrow> progress (tick r ?t) = 100"
    using tick_pin [of ?t r] by blast
  from st increment_bounds [OF assms(3)] below pin show ?thesis by blast
qed

theorem tick_progress_witness:
  "truthy (selectedFormat example_ready) \<and> list_all random_draw [3/4, 3/4] \<and>
   list_all random_draw [3/4, 3/4, 3/4, 3/4, 3/4, 3/4, 3/4, 3/4, 3/4] \<and> random_draw (1/2) \<and>
   0 < intervals example_running \<and> progress example_running < 100 \<and>
   progress (tick (1/2) example_running) = 30 \<and>
   0 < intervals (ticks [3/4, 3/4, 3/4, 3/4, 3/4, 3/4, 3/4, 3/4, 3/4] (startDownload example_ready)) \<and>
   100 \<le> progress (ticks [3/4, 3/4, 3/4, 3/4, 3/4, 3/4, 3/4, 3/4, 3/4] (startDownload example_ready)) \<and>
   progress (tick (1/2)
     (ticks [3/4, 3/4, 3/4, 3/4, 3/4, 3/4, 3/4, 3/4, 3/4] (startDownload example_ready))) = 100"
proof -
  have a: "truthy (selectedFormat example_ready)"
    by (simp add: example_ready_eq truthy_def)
  have b: "list_all random_draw [3/4, 3/4]"
    and c: "list_all random_draw [3/4, 3/4, 3/4, 3/4, 3/4, 3/4, 3/4, 3/4, 3/4]"
    and d: "random_draw (1/2)"
    by (simp_all add: random_draw_def binary64_values)
  have e: "add64 (45/2) (mul64 (1/2) 15) = 30"
    by (simp add: add64_def mul64_def binary64_values)
  show ?thesis
    using a b c d tick_progress [OF a b d] tick_progress [OF a c d]
    by (simp add: nine_ticks example_running_eq example_running_def [symmetric] e)
qed

text \<open>
  The bounds cannot be made strict without looking further into the draws: from 90 the
  largest draw below 1 gives the increment \<open>15 - 2 ^ -49\<close>, and the sum stored is exactly
  105.
\<close>

lemma largest_draw: "random_draw (1 - 1 / 2 ^ 53)"
proof -
  have "binary64 (of_int (2 ^ 53 - 1) * 2 powi (- 53)) = of_int (2 ^ 53 - 1) * 2 powi (- 53)"
    by (rule binary64_dyadic) simp_all
  then show ?thesis
    by (simp add: random_draw_def power_int_minus_divide field_simps)
qed

lemma largest_increment: "mul64 (1 - 1 / 2 ^ 53) 15 = 15 - 1 / 2 ^ 49"
proof -
  let ?x = "(1 - 1 / 2 ^ 53) * 15 :: real"
  have "binary64 ?x = of_int (round_half_even (?x / 2 powi (3 - 52))) * 2 powi (3 - 52)"
    by (rule binary64_in_binade) simp_all
  also have "?x / 2 powi (3 - 52) = 135107988821114865 / 16"
    by (simp add: power_int_minus_divide)
  also have "round_half_even (135107988821114865 / 16) = 8444249301319679"
    by (simp add: round_half_even_def)
  finally show ?thesis
    by (simp add: mul64_def power_int_minus_divide)
qed

lemma overshoot_stored: "add64 90 (mul64 (1 - 1 / 2 ^ 53) 15) = 105"
proof -
  let ?x = "90 + (15 - 1 / 2 ^ 49) :: real"
  have "binary64 ?x = of_int (round_half_even (?x / 2 powi (6 - 52))) * 2 powi (6 - 52)"
    by (rule binary64_in_binade) simp_all
  also have "?x / 2 powi (6 - 52) = 59109745109237759 / 8"
    by (simp add: power_int_minus_divide)
  also have "round_half_even (59109745109237759 / 8) = 7388718138654720"
    by (simp add: round_half_even_def)
  finally have "binary64 ?x = 105"
    by (simp add: power_int_minus_divide)
  then show ?thesis
    unfolding add64_def largest_increment .
qed

lemma ticks_stopped: "intervals s = 0 \<Longrightarrow> ticks rs s = s"
  by (induction rs) (simp_all add: ticks_Nil ticks_Cons tick_def)

lemma ticks_one_timer:
  assumes "intervals s = 1"
  shows "ticks rs s = s\<lparr>progress := binary64_total (progress s) rs\<rparr> \<or>
         ticks rs s = s\<lparr>intervals := 0, timeouts := timeouts s + 1, progress := 100\<rparr>"
  using assms
proof (induction rs arbitrary: s)
  case Nil
  then show ?case by (simp add: ticks_Nil)
next
  case (Cons r rs)
  show ?case
  proof (cases "100 \<le> progress s")
    case True
    with Cons.prems have "tick r s = s\<lparr>intervals := 0, timeouts := timeouts s + 1, progress := 100\<rparr>"
      by (simp add: tick_def)
    then show ?thesis by (simp add: ticks_Cons ticks_stopped)
  next
    case False
    with Cons.prems have t: "tick r s = s\<lparr>progress := add64 (progress s) (mul64 r 15)\<rparr>"
      by (simp add: tick_def)
    then have "intervals (tick r s) = 1" using Cons.prems by simp
    from Cons.IH [OF this] show ?thesis
      by (simp add: ticks_Cons t)
  qed
qed

lemma ticks_pinned:
  assumes "intervals s = 1" and "100 \<le> binary64_total (progress s) rs"
  shows "ticks (rs @ [r]) s = s\<lparr>intervals := 0, timeouts := timeouts s + 1, progress := 100\<rparr>"
proof -
  from ticks_one_timer [OF assms(1), of rs] show ?thesis
  proof
    assume "ticks rs s = s\<lparr>progress := binary64_total (progress s) rs\<rparr>"
    then show ?thesis using assms by (simp add: ticks_append ticks_Cons ticks_Nil tick_def)
  next
    assume "ticks rs s = s\<lparr>intervals := 0, timeouts := timeouts s + 1, progress := 100\<rparr>"
    then show ?thesis by (simp add: ticks_append ticks_stopped)
  qed
qed

lemma nine_total: "binary64_total 0 [3/4, 3/4, 3/4, 3/4, 3/4, 3/4, 3/4, 3/4, 3/4] = 405/4"
  by (simp add: add64_def mul64_def binary64_values)

text \<open>
  Claim C4 as stated fails: the callback of lines 127-131 clears \<open>downloading\<close> and
  resets the progress to 0 in the same step, so the progress is 0, not 100, when the
  completion becomes observable.
\<close>

theorem c4_counterexample:
  "truthy (selectedFormat example_ready) \<and>
   \<not> downloading (settle (ticks [3/4, 3/4, 3/4, 3/4, 3/4, 3/4, 3/4, 3/4, 3/4, 3/4]
       (startDownload example_ready))) \<and>
   alerts (settle (ticks [3/4, 3/4, 3/4, 3/4, 3/4, 3/4, 3/4, 3/4, 3/4, 3/4]
       (startDownload example_ready))) = 1 \<and>
   progress (settle (ticks [3/4, 3/4, 3/4, 3/4, 3/4, 3/4, 3/4, 3/4, 3/4, 3/4]
       (startDownload example_ready))) = 0"
  by (simp add: ticks_def tick_def settle_def startDownload_def truthy_def example_ready_eq
      add64_def mul64_def binary64_values)

text \<open>
  Claim C4, amended. A task started with a selected format, with no timer running and
  no callback pending, and with draws \<open>rs\<close> whose increments, added in binary64 as
  line 134 adds them, reach at least 100, comes after \<open>length rs + 1\<close> ticks to the state
  with the progress pinned at exactly 100, the timer stopped and the task still shown
  as running. The callback after the settle delay then ends the task, resets the
  progress to 0 and announces the completion once; no later tick or callback changes
  the state.
\<close>

theorem download_completes:
  assumes "truthy (selectedFormat s)" and "intervals s = 0" and "timeouts s = 0"
    and "100 \<le> binary64_total 0 rs"
  shows "ticks (rs @ [r]) (startDownload s) =
           s\<lparr>downloading := True, progress := 100, timeouts := 1\<rparr> \<and>
         settle (ticks (rs @ [r]) (startDownload s)) =
           s\<lparr>downloading := False, progress := 0, alerts := alerts s + 1\<rparr> \<and>
         tick r' (settle (ticks (rs @ [r]) (startDownload s))) =
           settle (ticks (rs @ [r]) (startDownload s)) \<and>
         settle (settle (ticks (rs @ [r]) (startDownload s))) =
           settle (ticks (rs @ [r]) (startDownload s))"
proof -
  let ?s0 = "startDownload s"
  have s0: "?s0 = s\<lparr>downloading := True, progress := 0, intervals := 1\<rparr>"
    using assms(1,2) by (simp add: startDownload_def)
  have "intervals ?s0 = 1" and "100 \<le> binary64_total (progress ?s0) rs"
    using assms(4) by (simp_all add: s0)
  then have "ticks (rs @ [r]) ?s0 =
      ?s0\<lparr>intervals := 0, timeouts := timeouts ?s0 + 1, progress := 100\<rparr>"
    by (rule ticks_pinned)
  then have p: "ticks (rs @ [r]) ?s0 = s\<lparr>downloading := True, progress := 100, timeouts := 1\<rparr>"
    using assms(2,3) by (simp add: s0)
  have f: "settle (s\<lparr>downloading := True, progress := 100, timeouts := 1\<rparr>) =
      s\<lparr>downloading := False, progress := 0, alerts := alerts s + 1\<rparr>"
    using assms(3) by (simp add: settle_def)
  show ?thesis
    using assms(2,3) by (simp only: p f) (simp add: tick_def settle_def)
qed

theorem download_completes_witness:
  "truthy (selectedFormat example_ready) \<and> intervals example_ready = 0 \<and>
   timeouts example_ready = 0 \<and> 100 \<le> binary64_total 0 [3/4, 3/4, 3/4, 3/4, 3/4, 3/4, 3/4, 3/4, 3/4] \<and>
   ticks ([3/4, 3/4, 3/4, 3/4, 3/4, 3/4, 3/4, 3/4, 3/4] @ [3/4]) (startDownload example_ready) =
     example_ready\<lparr>downloading := True, progress := 100, timeouts := 1\<rparr> \<and>
   settle (ticks ([3/4, 3/4, 3/4, 3/4, 3/4, 3/4, 3/4, 3/4, 3/4] @ [3/4]) (startDownload example_ready)) =
     example_ready\<lparr>downloading := False, progress := 0, alerts := alerts example_ready + 1\<rparr>"
proof -
  have a: "truthy (selectedFormat example_ready)"
    and b: "intervals example_ready = 0" and c: "timeouts example_ready = 0"
    by (simp_all add: example_ready_eq truthy_def)
  have d: "100 \<le> binary64_total 0 [3/4, 3/4, 3/4, 3/4, 3/4, 3/4, 3/4, 3/4, 3/4]"
    unfolding nine_total by simp
  show ?thesis
    using a b c d download_completes [OF a b c d, of "3/4" 0]
    by blast
qed

text \<open>
  The hypothesis on the draws is needed: while \<open>Math.random()\<close> returns 0 the task stays
  where it started.
\<close>

lemma zero_draws_never_complete:
  assumes "truthy (selectedFormat s)" and "intervals s = 0"
  shows "ticks (replicate n 0) (startDownload s) = startDownload s"
proof (induction n)
  case 0
  then show ?case by (simp add: ticks_Nil)
next
  case (Suc n)
  have "tick 0 (startDownload s) = startDownload s"
    using assms by (simp add: tick_def startDownload_def add64_def mul64_def binary64_values)
  with Suc show ?case by (simp add: ticks_Cons)
qed

text \<open>
  A condition on the draws alone that is enough: the whole parts of the exact
  increments \<open>15 * r\<close> add up to at least 100. Whole numbers up to 100 are binary64
  numbers and rounding is monotone, so the rounded sum cannot fall below them.
\<close>

lemma total_stays_above:
  assumes "list_all random_draw rs" and "100 \<le> p"
  shows "100 \<le> binary64_total p rs"
  using assms
proof (induction rs arbitrary: p)
  case Nil
  then show ?case by simp
next
  case (Cons r rs)
  from Cons.prems(1) have r: "random_draw r" and rs: "list_all random_draw rs" by simp_all
  from increment_bounds [OF r] have "100 \<le> p + mul64 r 15"
    using Cons.prems(2) by simp
  then have "binary64 100 \<le> binary64 (p + mul64 r 15)"
    by (intro binary64_mono) simp_all
  then have "100 \<le> add64 p (mul64 r 15)"
    by (simp add: add64_def binary64_values)
  from Cons.IH [OF rs this] show ?case by simp
qed

lemma total_whole_parts:
  assumes "list_all random_draw rs" and "0 \<le> k" and "k \<le> 100" and "of_int k \<le> p"
    and "100 \<le> k + (\<Sum>r\<leftarrow>rs. \<lfloor>15 * r\<rfloor>)"
  shows "100 \<le> binary64_total p rs"
  using assms
proof (induction rs arbitrary: p k)
  case Nil
  then have "k = 100" by simp
  with Nil.prems(4) show ?case by simp
next
  case (Cons r rs)
  from Cons.prems(1) have r: "random_draw r" and rs: "list_all random_draw rs" by simp_all
  let ?f = "\<lfloor>15 * r\<rfloor>"
  have r0: "0 \<le> r" using r by (simp add: random_draw_def)
  then have f0: "0 \<le> ?f" by simp
  have "binary64 (of_int ?f) \<le> binary64 (r * 15)"
    using f0 by (intro binary64_mono) (simp_all add: mult.commute)
  moreover have "?f < 2 ^ 53"
  proof -
    have "15 * r < 15" using r by (simp add: random_draw_def)
    then have "?f < 15" by (simp add: floor_less_iff)
    then show ?thesis by simp
  qed
  ultimately have fa: "of_int ?f \<le> mul64 r 15"
    using f0 by (simp add: mul64_def binary64_of_int)
  let ?p' = "add64 p (mul64 r 15)"
  have sum: "of_int (k + ?f) \<le> p + mul64 r 15"
    using Cons.prems(4) fa by simp
  show ?case
  proof (cases "100 \<le> k + ?f")
    case True
    with sum have "100 \<le> p + mul64 r 15" by linarith
    then have "binary64 100 \<le> binary64 (p + mul64 r 15)"
      by (intro binary64_mono) simp_all
    then have "100 \<le> ?p'" by (simp add: add64_def binary64_values)
    from total_stays_above [OF rs this] show ?thesis by simp
  next
    case False
    then have k': "0 \<le> k + ?f" "k + ?f \<le> 100" using Cons.prems(2) f0 by simp_all
    have "binary64 (of_int (k + ?f)) \<le> binary64 (p + mul64 r 15)"
      using sum k'(1) by (intro binary64_mono) simp_all
    moreover have "binary64 (of_int (k + ?f)) = of_int (k + ?f)"
      using k' by (intro binary64_of_int) simp_all
    ultimately have p': "of_int (k + ?f) \<le> ?p'" by (simp add: add64_def)
    have "100 \<le> (k + ?f) + (\<Sum>r\<leftarrow>rs. \<lfloor>15 * r\<rfloor>)"
      using Cons.prems(5) by simp
    from Cons.IH [OF rs k' p' this] show ?thesis by simp
  qed
qed

lemma whole_parts_reach_100:
  assumes "list_all random_draw rs" and "100 \<le> (\<Sum>r\<leftarrow>rs. \<lfloor>15 * r\<rfloor>)"
  shows "100 \<le> binary64_total 0 rs"
  using total_whole_parts [OF assms(1), of 0 0] assms(2) by simp

subsection \<open>Format selector\<close>

lemma format_buttons_shown:
  assumes "metadata s = Some m" and "\<not> loading s"
  shows "set (format_buttons s) = set (videoQualities m) \<union> set (audioFormats m)"
  using assms by (simp add: format_buttons_def)

lemma format_buttons_example:
  "format_buttons example_ready =
     [''360p (SD)'', ''720p (HD)'', ''1080p (Full HD)'', ''MP3 128kbps'', ''MP3 320kbps'',
      ''AAC (Original)'']"
  by (simp add: format_buttons_def example_ready_eq videoInfo_example
      default_videoQualities_def default_audioFormats_def)

text \<open>
  Claim C5 as stated fails: the code has no \<open>InvalidFormatError\<close>. A label outside the
  lists has no button, so nothing happens and no error is shown; the setter itself
  accepts any label.
\<close>

theorem c5_counterexample:
  "''4K'' \<notin> set (format_buttons example_ready) \<and>
   click_format ''4K'' example_ready = example_ready \<and>
   error (click_format ''4K'' example_ready) = None \<and>
   error (setSelectedFormat ''4K'' example_ready) = None \<and>
   selectedFormat (setSelectedFormat ''4K'' example_ready) = Some ''4K''"
proof -
  have a: "''4K'' \<notin> set (format_buttons example_ready)"
    by (simp add: format_buttons_example)
  then have b: "click_format ''4K'' example_ready = example_ready"
    by (simp add: click_format_def)
  have c: "error example_ready = None"
    by (simp add: example_ready_eq)
  show ?thesis
    using a c by (simp add: b setSelectedFormat_def)
qed

text \<open>
  Claim C5, amended. With a record displayed, a label of \<open>videoQualities\<close> or
  \<open>audioFormats\<close> has a button, and the click sets \<open>selectedFormat\<close> to the label and
  changes nothing else; for a label outside both lists there is nothing to click, and
  the state, its error field included, stays as it is.
\<close>

theorem click_format_select:
  assumes "metadata s = Some m" and "\<not> loading s"
  shows "(label \<in> set (videoQualities m) \<union> set (audioFormats m) \<longrightarrow>
            click_format label s = s\<lparr>selectedFormat := Some label\<rparr>) \<and>
         (label \<notin> set (videoQualities m) \<union> set (audioFormats m) \<longrightarrow>
            click_format label s = s)"
  by (simp add: click_format_def setSelectedFormat_def format_buttons_shown [OF assms])

theorem click_format_select_witness:
  "metadata example_ready = Some (videoInfo example_data) \<and> \<not> loading example_ready \<and>
   ''1080p (Full HD)'' \<in> set (videoQualities (videoInfo example_data)) \<union>
      set (audioFormats (videoInfo example_data)) \<and>
   click_format ''1080p (Full HD)'' example_ready =
      example_ready\<lparr>selectedFormat := Some ''1080p (Full HD)''\<rparr> \<and>
   ''4K'' \<notin> set (videoQualities (videoInfo example_data)) \<union>
      set (audioFormats (videoInfo example_data)) \<and>
   click_format ''4K'' example_ready = example_ready"
proof -
  have a: "metadata example_ready = Some (videoInfo example_data)"
    and b: "\<not> loading example_ready"
    by (simp_all add: example_ready_eq)
  have c: "''1080p (Full HD)'' \<in> set (videoQualities (videoInfo example_data)) \<union>
      set (audioFormats (videoInfo example_data))"
    by (simp add: videoInfo_example default_videoQualities_def)
  have d: "''4K'' \<notin> set (videoQualities (videoInfo example_data)) \<union>
      set (audioFormats (videoInfo example_data))"
    by (simp add: videoInfo_example default_videoQualities_def default_audioFormats_def)
  show ?thesis
    using a b c d click_format_select [OF a b, of "''1080p (Full HD)''"]
      click_format_select [OF a b, of "''4K''"]
    by blast
qed

subsection \<open>Starting a download\<close>

text \<open>
  Claim C6 as stated fails: \<open>startDownload\<close> does not look at \<open>downloading\<close>. Called
  while a task runs, it resets the progress to 0 and starts a second timer; and it never
  sets an error, neither then nor when no format is selected.
\<close>

theorem c6_counterexample:
  "downloading example_running \<and> progress example_running = 45/2 \<and>
   intervals example_running = 1 \<and>
   progress (startDownload example_running) = 0 \<and>
   intervals (startDownload example_running) = 2 \<and>
   error (startDownload example_running) = None \<and>
   \<not> truthy (selectedFormat (initial NoItem)) \<and>
   error (startDownload (initial NoItem)) = None"
  by (simp add: example_running_eq example_ready_eq startDownload_def truthy_def initial_def)

text \<open>
  Claim C6, amended. With no format selected \<open>startDownload\<close> returns at once and
  changes nothing. While a task is running the download button is disabled, and a click
  changes nothing. Neither path reports an error.
\<close>

theorem start_guards:
  "(\<not> truthy (selectedFormat s) \<longrightarrow> startDownload s = s) \<and>
   (downloading s \<longrightarrow> click_download s = s) \<and>
   error (startDownload s) = error s \<and> error (click_download s) = error s"
  by (simp add: startDownload_def click_download_def)

theorem start_guards_witness:
  "\<not> truthy (selectedFormat (initial NoItem)) \<and>
   startDownload (initial NoItem) = initial NoItem \<and>
   downloading example_running \<and> click_download example_running = example_running"
proof -
  have a: "\<not> truthy (selectedFormat (initial NoItem))"
    by (simp add: initial_def truthy_def)
  have b: "downloading example_running"
    by (simp add: example_running_eq)
  show ?thesis
    using a b start_guards [of "initial NoItem"] start_guards [of example_running]
    by blast
qed

subsection \<open>Resolution while a download runs\<close>

lemma is_blank_example2: "\<not> is_blank ''https://example.com/v2''"
  by (simp add: is_blank_def trim_def js_whitespace_def)

lemma fetch_running_example:
  "fetchQualities (Parsed example_data) ''q7w2e5'' 1700000000500 True
      (example_running\<lparr>url := ''https://example.com/v2''\<rparr>) =
   example_running\<lparr>url := ''https://example.com/v2'',
      history := [\<lparr>item_id = ''q7w2e5'', item_url = ''https://example.com/v2'',
                    item_title = ''Demo'', timestamp = 1700000000500\<rparr>,
                  \<lparr>item_id = ''k3x9a1'', item_url = ''https://example.com/v1'',
                    item_title = ''Demo'', timestamp = 1700000000000\<rparr>],
      storage := Entries [\<lparr>item_id = ''q7w2e5'', item_url = ''https://example.com/v2'',
                    item_title = ''Demo'', timestamp = 1700000000500\<rparr>,
                  \<lparr>item_id = ''k3x9a1'', item_url = ''https://example.com/v1'',
                    item_title = ''Demo'', timestamp = 1700000000000\<rparr>]\<rparr>"
  by (simp add: fetchQualities_def is_blank_example2 example_running_eq example_ready_eq
      parse_reply_def videoInfo_example saveToHistory_def updatedHistory_def Let_def
      default_format_def js_or_def js_index_def truthy_def default_videoQualities_def)

text \<open>
  Claim C7 as stated fails: the fetch button is disabled by \<open>loading\<close> and by an empty
  link only, and \<open>fetchQualities\<close> does not read \<open>downloading\<close>. With a task running,
  the resolution of a second link succeeds and writes the history.
\<close>

theorem c7_counterexample:
  "downloading (example_running\<lparr>url := ''https://example.com/v2''\<rparr>) \<and>
   error (fetchQualities (Parsed example_data) ''q7w2e5'' 1700000000500 True
      (example_running\<lparr>url := ''https://example.com/v2''\<rparr>)) = None \<and>
   map item_url (history (example_running\<lparr>url := ''https://example.com/v2''\<rparr>)) =
      [''https://example.com/v1''] \<and>
   map item_url (history (fetchQualities (Parsed example_data) ''q7w2e5'' 1700000000500 True
      (example_running\<lparr>url := ''https://example.com/v2''\<rparr>))) =
      [''https://example.com/v2'', ''https://example.com/v1''] \<and>
   click_fetch (Parsed example_data) ''q7w2e5'' 1700000000500 True
      (example_running\<lparr>url := ''https://example.com/v2''\<rparr>) =
   fetchQualities (Parsed example_data) ''q7w2e5'' 1700000000500 True
      (example_running\<lparr>url := ''https://example.com/v2''\<rparr>)"
proof -
  have a: "click_fetch (Parsed example_data) ''q7w2e5'' 1700000000500 True
      (example_running\<lparr>url := ''https://example.com/v2''\<rparr>) =
    fetchQualities (Parsed example_data) ''q7w2e5'' 1700000000500 True
      (example_running\<lparr>url := ''https://example.com/v2''\<rparr>)"
    by (simp add: click_fetch_def example_running_eq example_ready_eq)
  show ?thesis
    by (simp add: a fetch_running_example) (simp add: example_running_eq example_ready_eq)
qed

text \<open>
  Claim C7, amended. A running download does not block a resolution: a resolution that
  succeeds while a task is running installs the record, reseeds the selection and writes
  the history as it does otherwise, and leaves the task running with its progress, its
  timers and its pending callbacks untouched.
\<close>

theorem fetch_while_downloading:
  assumes "downloading s" and "successful reply quota_ok s" and "parse_reply reply = Inr d"
  shows "fetchQualities reply rid now quota_ok s =
     s\<lparr>loading := False, error := None, metadata := Some (videoInfo d),
       selectedFormat := default_format (videoInfo d),
       history := updatedHistory \<lparr>item_id = rid, item_url = url s,
          item_title = title (videoInfo d), timestamp = now\<rparr> (history s),
       storage := Entries (updatedHistory \<lparr>item_id = rid, item_url = url s,
          item_title = title (videoInfo d), timestamp = now\<rparr> (history s))\<rparr> \<and>
     downloading (fetchQualities reply rid now quota_ok s) \<and>
     progress (fetchQualities reply rid now quota_ok s) = progress s \<and>
     intervals (fetchQualities reply rid now quota_ok s) = intervals s \<and>
     timeouts (fetchQualities reply rid now quota_ok s) = timeouts s"
  using assms(1) by (simp add: fetchQualities_success [OF assms(2,3)])

theorem fetch_while_downloading_witness:
  "downloading (example_running\<lparr>url := ''https://example.com/v2''\<rparr>) \<and>
   successful (Parsed example_data) True (example_running\<lparr>url := ''https://example.com/v2''\<rparr>) \<and>
   parse_reply (Parsed example_data) = Inr example_data \<and>
   metadata (fetchQualities (Parsed example_data) ''q7w2e5'' 1700000000500 True
      (example_running\<lparr>url := ''https://example.com/v2''\<rparr>)) = Some (videoInfo example_data) \<and>
   progress (fetchQualities (Parsed example_data) ''q7w2e5'' 1700000000500 True
      (example_running\<lparr>url := ''https://example.com/v2''\<rparr>)) = 45/2"
proof -
  have a: "downloading (example_running\<lparr>url := ''https://example.com/v2''\<rparr>)"
    by (simp add: example_running_eq)
  have b: "successful (Parsed example_data) True
      (example_running\<lparr>url := ''https://example.com/v2''\<rparr>)"
    by (simp add: successful_def is_blank_example2 parse_reply_def)
  have c: "parse_reply (Parsed example_data) = Inr example_data"
    by (simp add: parse_reply_def)
  have d: "progress example_running = 45/2"
    by (simp add: example_running_eq)
  show ?thesis
    using a b c fetch_while_downloading [OF a b c, of "''q7w2e5''" 1700000000500]
    by (simp add: d)
qed

subsection \<open>Loading the persisted history\<close>

text \<open>
  Claim C8 at a corrupt item: the effect of lines 50-55 calls \<open>JSON.parse\<close> outside any
  \<open>try\<close>, so the text \<open>{not json\<close> ends the start of the component with an uncaught
  \<open>SyntaxError\<close> instead of the empty history. The parse of the provider's reply at
  line 95 is inside a \<open>try\<close>.
\<close>

theorem load_corrupt_throws:
  "mount (Malformed ''{not json'') = Inl SyntaxError"
  by (simp add: mount_def load_history_def initial_def)

text \<open>
  The other startup cases do what the claim says: well-formed entries are restored, and
  a missing or empty item leaves the history empty.
\<close>

lemma load_well_formed:
  "mount (Entries es) = Inr ((initial (Entries es))\<lparr>history := es\<rparr>)"
  by (simp add: mount_def load_history_def initial_def)

lemma load_missing:
  "mount NoItem = Inr (initial NoItem)" "mount (Malformed []) = Inr (initial (Malformed []))"
  by (simp_all add: mount_def load_history_def initial_def)

subsection \<open>Failed resolutions\<close>

text \<open>
  Claim C9 as stated fails: for a blank link, line 77 returns before line 81, so the
  record on display stays.
\<close>

theorem c9_counterexample:
  "is_blank (url (example_ready\<lparr>url := ''   ''\<rparr>)) \<and>
   error (fetchQualities Rejected ''q7w2e5'' 1700000000500 True (example_ready\<lparr>url := ''   ''\<rparr>)) =
     Some blank_message \<and>
   metadata (fetchQualities Rejected ''q7w2e5'' 1700000000500 True (example_ready\<lparr>url := ''   ''\<rparr>)) =
     Some (videoInfo example_data)"
  by (simp add: fetchQualities_def is_blank_spaces) (simp add: example_ready_eq)

text \<open>
  Claim C9, amended. A resolution of a blank link sets the error and changes nothing
  else: the record on display and the history stay. A resolution that fails at the
  provider call or at the parse clears the record, sets the error and ends loading; the
  history and the persisted item are as before the call.
\<close>

theorem failed_resolution:
  "(is_blank (url s) \<longrightarrow>
      fetchQualities reply rid now quota_ok s = s\<lparr>error := Some blank_message\<rparr>) \<and>
   (\<not> is_blank (url s) \<and> isl (parse_reply reply) \<longrightarrow>
      fetchQualities reply rid now quota_ok s =
        s\<lparr>loading := False, error := Some fetch_message, metadata := None\<rparr>)"
  by (cases "parse_reply reply") (simp_all add: fetchQualities_def)

theorem failed_resolution_witness:
  "is_blank (url (example_ready\<lparr>url := ''   ''\<rparr>)) \<and>
   fetchQualities BadJson ''q7w2e5'' 1700000000500 True (example_ready\<lparr>url := ''   ''\<rparr>) =
     example_ready\<lparr>url := ''   '', error := Some blank_message\<rparr> \<and>
   \<not> is_blank (url example_ready) \<and> isl (parse_reply BadJson) \<and>
   fetchQualities BadJson ''q7w2e5'' 1700000000500 True example_ready =
     example_ready\<lparr>loading := False, error := Some fetch_message, metadata := None\<rparr>"
proof -
  have a: "is_blank (url (example_ready\<lparr>url := ''   ''\<rparr>))"
    by (simp add: is_blank_spaces)
  have b: "\<not> is_blank (url example_ready)"
    by (simp add: example_ready_eq is_blank_example)
  have c: "isl (parse_reply BadJson)"
    by (simp add: parse_reply_def)
  show ?thesis
    using a b c
      failed_resolution [of "example_ready\<lparr>url := ''   ''\<rparr>" BadJson "''q7w2e5''" 1700000000500 True]
      failed_resolution [of example_ready BadJson "''q7w2e5''" 1700000000500 True]
    by simp
qed

end
